theory Spec2Isabelle
  imports Complex_Main
begin

section \<open>JavaScript values\<close>

text \<open>
  The values that travel through the telemetry handler and the store. Numbers are the
  finite ones (\<open>JNum\<close>), \<open>NaN\<close> and the two infinities; the program never computes
  with them, it only tests them for finiteness and truthiness and copies them. Strings
  are lists of characters. An object literal received from the socket is a list of
  key/value pairs, read with \<open>map_of\<close>.
\<close>

datatype jsval =
    JUndefined
  | JNull
  | JBool bool
  | JNum real
  | JNaN
  | JInf bool
  | JStr string
  | JArr "jsval list"
  | JObj "(string \<times> jsval) list"

datatype error = TypeError

text \<open>\<open>!v\<close> is \<open>\<not> truthy v\<close>; \<open>a || b\<close> is \<open>if truthy a then a else b\<close>.\<close>

fun truthy :: "jsval \<Rightarrow> bool" where
  "truthy JUndefined = False"
| "truthy JNull = False"
| "truthy (JBool b) = b"
| "truthy (JNum r) = (r \<noteq> 0)"
| "truthy JNaN = False"
| "truthy (JInf _) = True"
| "truthy (JStr s) = (s \<noteq> [])"
| "truthy (JArr _) = True"
| "truthy (JObj _) = True"

text \<open>\<open>a ?? b\<close> and \<open>a?.k\<close> test for \<open>null\<close> and \<open>undefined\<close> only.\<close>

fun nullish :: "jsval \<Rightarrow> bool" where
  "nullish JUndefined = True"
| "nullish JNull = True"
| "nullish _ = False"

fun typeof :: "jsval \<Rightarrow> string" where
  "typeof JUndefined = ''undefined''"
| "typeof JNull = ''object''"
| "typeof (JBool _) = ''boolean''"
| "typeof (JNum _) = ''number''"
| "typeof JNaN = ''number''"
| "typeof (JInf _) = ''number''"
| "typeof (JStr _) = ''string''"
| "typeof (JArr _) = ''object''"
| "typeof (JObj _) = ''object''"

text \<open>\<open>Number.isFinite(v)\<close>: a number that is neither \<open>NaN\<close> nor infinite.\<close>

fun isFinite :: "jsval \<Rightarrow> bool" where
  "isFinite (JNum _) = True"
| "isFinite _ = False"

text \<open>
  \<open>v.k\<close> for the property names the handler reads (\<open>features\<close>, \<open>geometry\<close>,
  \<open>type\<close>, \<open>coordinates\<close>, \<open>properties\<close>, \<open>registration\<close>, \<open>yaw\<close>,
  \<open>altitude\<close>, \<open>Name\<close>, \<open>pilot\<close>, \<open>organization\<close>): none of them is an array
  index or a member of a built-in prototype, so the read yields \<open>undefined\<close> on
  everything but an object that has the key. The handler guards every read whose
  receiver could be \<open>null\<close> or \<open>undefined\<close>.
\<close>

fun getprop :: "jsval \<Rightarrow> string \<Rightarrow> jsval" where
  "getprop (JObj kvs) k = (case map_of kvs k of Some v \<Rightarrow> v | None \<Rightarrow> JUndefined)"
| "getprop _ k = JUndefined"

text \<open>\<open>v[0]\<close>.\<close>

fun elem0 :: "jsval \<Rightarrow> jsval" where
  "elem0 (JArr xs) = (case xs of [] \<Rightarrow> JUndefined | x # _ \<Rightarrow> x)"
| "elem0 (JStr s) = (case s of [] \<Rightarrow> JUndefined | c # _ \<Rightarrow> JStr [c])"
| "elem0 (JObj kvs) = getprop (JObj kvs) ''0''"
| "elem0 _ = JUndefined"

text \<open>
  The elements an iteration of \<open>v\<close> yields (array destructuring, array spread);
  \<open>None\<close> when \<open>v\<close> is not iterable, where JavaScript throws a \<open>TypeError\<close>.
\<close>

fun iterate :: "jsval \<Rightarrow> jsval list option" where
  "iterate (JArr xs) = Some xs"
| "iterate (JStr s) = Some (map (\<lambda>c. JStr [c]) s)"
| "iterate _ = None"

definition nth_or_undefined :: "jsval list \<Rightarrow> nat \<Rightarrow> jsval" where
  "nth_or_undefined xs i = (if i < length xs then xs ! i else JUndefined)"

text \<open>
  \<open>String(v)\<close>, which is also the conversion of \<open>v\<close> to a property key in
  \<open>drones[v]\<close>. A string converts to itself and the other primitives to their names.
  The conversion of finite numbers (digit formatting), arrays (joining the elements) and
  objects (which may throw) is the parameter \<open>ts\<close>: every result below holds for all
  such conversions.
\<close>

type_synonym tostr = "jsval \<Rightarrow> error + string"

fun ToString :: "tostr \<Rightarrow> jsval \<Rightarrow> error + string" where
  "ToString ts (JStr s) = Inr s"
| "ToString ts JUndefined = Inr ''undefined''"
| "ToString ts JNull = Inr ''null''"
| "ToString ts (JBool b) = Inr (if b then ''true'' else ''false'')"
| "ToString ts JNaN = Inr ''NaN''"
| "ToString ts (JInf b) = Inr (if b then ''Infinity'' else ''-Infinity'')"
| "ToString ts v = ts v"

section \<open>IdentityPolicy: \<open>isAllowed\<close>\<close>

definition ALLOWED_PREFIX :: string where
  "ALLOWED_PREFIX = ''SD-''"

definition ALLOWED_CHAR :: string where
  "ALLOWED_CHAR = ''B''"

definition startsWith :: "string \<Rightarrow> string \<Rightarrow> bool" where
  "startsWith s p = (take (length p) s = p)"

text \<open>\<open>s[i]\<close> on a string: the one-character string at \<open>i\<close>, or \<open>undefined\<close>.\<close>

definition str_index :: "string \<Rightarrow> nat \<Rightarrow> jsval" where
  "str_index s i = (if i < length s then JStr [s ! i] else JUndefined)"

definition isAllowed :: "jsval \<Rightarrow> bool" where
  "isAllowed ident =
     (if \<not> truthy ident \<or> typeof ident \<noteq> ''string'' then False
      else case ident of
             JStr s \<Rightarrow>
               if \<not> startsWith s ALLOWED_PREFIX then False
               else str_index s (length ALLOWED_PREFIX) = JStr ALLOWED_CHAR
           | _ \<Rightarrow> False)"

section \<open>StateStore: the zustand store\<close>

text \<open>
  A stored drone and the \<open>droneData\<close> argument are objects: maps from property names
  to values, where a key that is present with the value \<open>undefined\<close> differs from an
  absent key. \<open>drones\<close> maps property keys to drones. A key that an empty object
  inherits from its prototype reads as a value with no \<open>path\<close>, no \<open>firstSeen\<close>
  and nothing to spread, the same as an absent key.
\<close>

type_synonym obj = "string \<rightharpoonup> jsval"

record store =
  drones :: "string \<rightharpoonup> obj"
  selectedDroneId :: jsval

definition initial_store :: store where
  "initial_store = \<lparr>drones = Map.empty, selectedDroneId = JNull\<rparr>"

text \<open>\<open>o.k\<close> on a stored object.\<close>

definition objget :: "obj \<Rightarrow> string \<Rightarrow> jsval" where
  "objget ob k = (case ob k of Some v \<Rightarrow> v | None \<Rightarrow> JUndefined)"

definition setSelectedDrone :: "store \<Rightarrow> jsval \<Rightarrow> store" where
  "setSelectedDrone state ident = state\<lparr>selectedDroneId := ident\<rparr>"

text \<open>
  \<open>existing.path ? [...existing.path, [lon, lat]] : [[lon, lat]]\<close>; the spread of a
  truthy value that is not iterable throws.
\<close>

definition next_path :: "obj \<Rightarrow> obj \<Rightarrow> error + jsval" where
  "next_path existing droneData =
     (let point = JArr [objget droneData ''lon'', objget droneData ''lat'']
      in if truthy (objget existing ''path'')
         then (case iterate (objget existing ''path'') of
                 None \<Rightarrow> Inl TypeError
               | Some xs \<Rightarrow> Inr (JArr (xs @ [point])))
         else Inr (JArr [point]))"

text \<open>\<open>state.drones[id] || {}\<close>: a stored drone is an object, which is truthy.\<close>

definition existing_drone :: "store \<Rightarrow> string \<Rightarrow> obj" where
  "existing_drone state key = (case drones state key of Some d \<Rightarrow> d | None \<Rightarrow> Map.empty)"

text \<open>
  \<open>existing.firstSeen || Date.now()\<close>, with \<open>now\<close> the value \<open>Date.now()\<close>
  returns if it is called.
\<close>

definition next_firstSeen :: "obj \<Rightarrow> real \<Rightarrow> jsval" where
  "next_firstSeen existing now =
     (if truthy (objget existing ''firstSeen'') then objget existing ''firstSeen'' else JNum now)"

text \<open>
  \<open>addOrUpdateDrone\<close>. The object literal spreads \<open>existing\<close>, then
  \<open>droneData\<close> over it, then sets \<open>path\<close> and \<open>firstSeen\<close>. When the
  callback throws, \<open>set\<close> stores nothing.
\<close>

definition addOrUpdateDrone :: "tostr \<Rightarrow> store \<Rightarrow> real \<Rightarrow> obj \<Rightarrow> error + store" where
  "addOrUpdateDrone ts state now droneData =
     (case ToString ts (objget droneData ''id'') of
        Inl e \<Rightarrow> Inl e
      | Inr key \<Rightarrow>
          (let existing = existing_drone state key
           in case next_path existing droneData of
                Inl e \<Rightarrow> Inl e
              | Inr path \<Rightarrow>
                  Inr (state\<lparr>drones := (drones state)(key \<mapsto>
                         (existing ++ droneData)
                           (''path'' \<mapsto> path,
                            ''firstSeen'' \<mapsto> next_firstSeen existing now))\<rparr>)))"


text \<open>
  Reading the store: the property \<open>f\<close> of the drone stored under \<open>key\<close> (\<open>None\<close>
  when there is no such drone or it has no such property), and the elements of its
  \<open>path\<close> array (empty when there is no drone yet, \<open>None\<close> when the property is not
  an array).
\<close>

definition stored_field :: "store \<Rightarrow> string \<Rightarrow> string \<Rightarrow> jsval option" where
  "stored_field state key f = (case drones state key of None \<Rightarrow> None | Some d \<Rightarrow> d f)"

definition path_of :: "store \<Rightarrow> string \<Rightarrow> jsval list option" where
  "path_of state key =
     (case drones state key of
        None \<Rightarrow> Some []
      | Some d \<Rightarrow> (case d ''path'' of Some (JArr xs) \<Rightarrow> Some xs | _ \<Rightarrow> None))"

section \<open>FreezeGate and the telemetry handler\<close>

text \<open>
  \<open>frozenPosRef.current\<close> is a \<open>Map\<close> from \<open>String(id)\<close> to the lock
  \<open>{lon, lat, yaw}\<close>. The handler's state is the store and this map.
\<close>

record lock =
  lock_lon :: jsval
  lock_lat :: jsval
  lock_yaw :: jsval

record world =
  store :: store
  frozenPos :: "string \<rightharpoonup> lock"

definition initial_world :: world where
  "initial_world = \<lparr>store = initial_store, frozenPos = Map.empty\<rparr>"

text \<open>\<open>fc?.features?.[0]\<close>\<close>

definition first_feature :: "jsval \<Rightarrow> jsval" where
  "first_feature fc =
     (if nullish fc then JUndefined
      else if nullish (getprop fc ''features'') then JUndefined
      else elem0 (getprop fc ''features''))"

text \<open>\<open>feat.geometry?.type\<close>\<close>

definition geometry_type :: "jsval \<Rightarrow> jsval" where
  "geometry_type feat =
     (if nullish (getprop feat ''geometry'') then JUndefined
      else getprop (getprop feat ''geometry'') ''type'')"

text \<open>
  What the handler has in hand when it reaches its second part: \<open>id\<close>, \<open>lon\<close>,
  \<open>lat\<close>, \<open>yaw\<close> and the properties object \<open>p\<close>.
\<close>

record event =
  ev_id :: jsval
  ev_lon :: jsval
  ev_lat :: jsval
  ev_yaw :: jsval
  ev_p :: jsval

datatype decoded = Dropped | Raised error | Accepted event

text \<open>
  The first part of the handler, up to the finiteness test: \<open>Dropped\<close> is one of its
  two \<open>return\<close>s, \<open>Raised\<close> the destructuring of coordinates that are not iterable.
\<close>

definition decode :: "jsval \<Rightarrow> decoded" where
  "decode fc =
     (let feat = first_feature fc
      in if \<not> truthy feat \<or> geometry_type feat \<noteq> JStr ''Point'' then Dropped
         else
           (let coordinates = getprop (getprop feat ''geometry'') ''coordinates''
            in case iterate (if truthy coordinates then coordinates else JArr []) of
                 None \<Rightarrow> Raised TypeError
               | Some cs \<Rightarrow>
                   (let lon = nth_or_undefined cs 0;
                        lat = nth_or_undefined cs 1;
                        p = (if truthy (getprop feat ''properties'')
                             then getprop feat ''properties'' else JObj []);
                        ident = (if truthy (getprop p ''registration'')
                                 then getprop p ''registration'' else JStr ''SD-UNK'');
                        yaw = (if nullish (getprop p ''yaw'') then JNum 0 else getprop p ''yaw'')
                    in if \<not> isFinite lon \<or> \<not> isFinite lat then Dropped
                       else Accepted \<lparr>ev_id = ident, ev_lon = lon, ev_lat = lat,
                                       ev_yaw = yaw, ev_p = p\<rparr>)))"

text \<open>The lock \<open>{ lon, lat, yaw }\<close> captured from an event.\<close>

definition lock_of :: "event \<Rightarrow> lock" where
  "lock_of ev = \<lparr>lock_lon = ev_lon ev, lock_lat = ev_lat ev, lock_yaw = ev_yaw ev\<rparr>"

text \<open>The object literal both branches pass to \<open>addOrUpdateDrone\<close>.\<close>

definition droneData_of :: "jsval \<Rightarrow> jsval \<Rightarrow> jsval \<Rightarrow> jsval \<Rightarrow> jsval \<Rightarrow> obj" where
  "droneData_of ident lon lat yaw p =
     [''id'' \<mapsto> ident,
      ''lon'' \<mapsto> lon,
      ''lat'' \<mapsto> lat,
      ''yaw'' \<mapsto> yaw,
      ''altitude'' \<mapsto> getprop p ''altitude'',
      ''registration'' \<mapsto> getprop p ''registration'',
      ''name'' \<mapsto> getprop p ''Name'',
      ''pilot'' \<mapsto> getprop p ''pilot'',
      ''organization'' \<mapsto> getprop p ''organization'']"

text \<open>
  The call of \<open>addOrUpdateDrone\<close> from the handler: a throw leaves the store as it
  was and reaches the handler's caller.
\<close>

definition call_store :: "world \<Rightarrow> error + store \<Rightarrow> error option \<times> world" where
  "call_store w r = (case r of Inl e \<Rightarrow> (Some e, w) | Inr s \<Rightarrow> (None, w\<lparr>store := s\<rparr>))"

text \<open>
  The second part of the handler, from \<open>if (!isAllowed(id))\<close> on. The result is the
  error thrown, if any, and the state left behind. Nothing else writes this state: the
  demo timer is switched off (\<open>DEMO_MODE\<close> is \<open>false\<close>), and the rendering effects
  read the store and the lock map and call \<open>setSelectedDrone\<close> on a click.
\<close>

definition reconcile :: "tostr \<Rightarrow> world \<Rightarrow> real \<Rightarrow> event \<Rightarrow> error option \<times> world" where
  "reconcile ts w now ev =
     (if \<not> isAllowed (ev_id ev) then
        (case ToString ts (ev_id ev) of
           Inl e \<Rightarrow> (Some e, w)
         | Inr key \<Rightarrow>
             (let frozen = (if frozenPos w key = None
                            then (frozenPos w)(key \<mapsto> lock_of ev)
                            else frozenPos w)
              in case frozen key of
                   None \<Rightarrow> (Some TypeError, w\<lparr>frozenPos := frozen\<rparr>)
                 | Some l \<Rightarrow>
                     call_store (w\<lparr>frozenPos := frozen\<rparr>)
                       (addOrUpdateDrone ts (store w) now
                          (droneData_of (ev_id ev) (lock_lon l) (lock_lat l) (lock_yaw l) (ev_p ev)))))
      else
        (case ToString ts (ev_id ev) of
           Inl e \<Rightarrow> (Some e, w)
         | Inr key \<Rightarrow>
             call_store (w\<lparr>frozenPos := (frozenPos w)(key := None)\<rparr>)
               (addOrUpdateDrone ts (store w) now
                  (droneData_of (ev_id ev) (ev_lon ev) (ev_lat ev) (ev_yaw ev) (ev_p ev)))))"

definition onMessage :: "tostr \<Rightarrow> world \<Rightarrow> real \<Rightarrow> jsval \<Rightarrow> error option \<times> world" where
  "onMessage ts w now fc =
     (case decode fc of
        Dropped \<Rightarrow> (None, w)
      | Raised e \<Rightarrow> (Some e, w)
      | Accepted ev \<Rightarrow> reconcile ts w now ev)"

text \<open>
  Events reconciled one after the other, each with the clock reading of its turn. A
  throw ends one call of the handler, not the delivery of later messages.
\<close>

fun reconcile_all :: "tostr \<Rightarrow> world \<Rightarrow> (real \<times> event) list \<Rightarrow> world" where
  "reconcile_all ts w [] = w"
| "reconcile_all ts w ((now, ev) # rest) = reconcile_all ts (snd (reconcile ts w now ev)) rest"

text \<open>The position \<open>[lon, lat]\<close> of an event and of a lock.\<close>

definition point_of :: "event \<Rightarrow> jsval" where
  "point_of ev = JArr [ev_lon ev, ev_lat ev]"

definition lock_point :: "lock \<Rightarrow> jsval" where
  "lock_point l = JArr [lock_lon l, lock_lat l]"

text \<open>
  A conversion that throws on every finite number, array and object, to have one at
  hand where only string identifiers occur.
\<close>

definition ts_throw :: tostr where
  "ts_throw v = Inl TypeError"

text \<open>
  The store after a call of \<open>addOrUpdateDrone\<close>: what the callback returned, or
  the store as it was when the callback threw.
\<close>

definition store_after :: "store \<Rightarrow> error + store \<Rightarrow> store" where
  "store_after state r = (case r of Inl e \<Rightarrow> state | Inr state' \<Rightarrow> state')"

text \<open>
  A message in the shape the feed sends: one \<open>Point\<close> feature with the given
  coordinates and properties. \<open>plain_event\<close> is the event the handler makes of such a
  message when the properties are a registration and a yaw.
\<close>

definition telemetry :: "jsval \<Rightarrow> jsval \<Rightarrow> jsval" where
  "telemetry coordinates properties =
     JObj [(''features'',
            JArr [JObj [(''geometry'', JObj [(''type'', JStr ''Point''),
                                             (''coordinates'', coordinates)]),
                        (''properties'', properties)]])]"

definition plain_event :: "string \<Rightarrow> real \<Rightarrow> real \<Rightarrow> real \<Rightarrow> event" where
  "plain_event reg lon lat yaw =
     \<lparr>ev_id = JStr reg, ev_lon = JNum lon, ev_lat = JNum lat, ev_yaw = JNum yaw,
      ev_p = JObj [(''registration'', JStr reg), (''yaw'', JNum yaw)]\<rparr>"

section \<open>Lemmas on \<open>isAllowed\<close>\<close>

lemma startsWith_iff: "startsWith s p = (\<exists>r. s = p @ r)"
  unfolding startsWith_def
  by (metis append_eq_conv_conj append_take_drop_id)

lemma isAllowed_JStr: "isAllowed (JStr s) = (\<exists>r. s = ''SD-B'' @ r)"
proof (cases "startsWith s ALLOWED_PREFIX")
  case False
  then show ?thesis
    by (auto simp: isAllowed_def startsWith_iff ALLOWED_PREFIX_def)
next
  case True
  then obtain t where s: "s = ''SD-'' @ t"
    by (auto simp: startsWith_iff ALLOWED_PREFIX_def)
  show ?thesis
    by (cases t)
       (auto simp: isAllowed_def startsWith_iff s ALLOWED_PREFIX_def ALLOWED_CHAR_def str_index_def)
qed

lemma isAllowed_cases: "isAllowed v = (\<exists>r. v = JStr (''SD-B'' @ r))"
  by (cases v) (simp_all add: isAllowed_JStr, simp_all add: isAllowed_def)

lemma isAllowed_take4: "isAllowed (JStr s) = (take 4 s = ''SD-B'')"
proof -
  have "(\<exists>r. s = ''SD-B'' @ r) = (take 4 s = ''SD-B'')"
  proof
    assume "\<exists>r. s = ''SD-B'' @ r"
    then show "take 4 s = ''SD-B''" by auto
  next
    assume "take 4 s = ''SD-B''"
    then have "s = ''SD-B'' @ drop 4 s"
      using append_take_drop_id [of 4 s] by simp
    then show "\<exists>r. s = ''SD-B'' @ r" ..
  qed
  then show ?thesis by (simp add: isAllowed_JStr)
qed

lemma isAllowed_ToString: "isAllowed i \<Longrightarrow> ToString ts i = Inr k \<Longrightarrow> i = JStr k"
  by (auto simp: isAllowed_cases)

lemma not_isAllowed_SD_UNK: "\<not> isAllowed (JStr ''SD-UNK'')"
  by (simp add: isAllowed_JStr)


section \<open>Lemmas on the store and the handler\<close>

lemma objget_empty [simp]: "objget Map.empty k = JUndefined"
  by (simp add: objget_def)

lemma objget_Some [simp]: "d k = Some v \<Longrightarrow> objget d k = v"
  by (simp add: objget_def)

lemma objget_droneData_of [simp]:
  "objget (droneData_of i lo la y p) ''id'' = i"
  "objget (droneData_of i lo la y p) ''lon'' = lo"
  "objget (droneData_of i lo la y p) ''lat'' = la"
  by (simp_all add: droneData_of_def)

lemma next_path_ok:
  assumes "path_of st k = Some xs"
  shows "next_path (existing_drone st k) dd = Inr (JArr (xs @ [JArr [objget dd ''lon'', objget dd ''lat'']]))"
proof (cases "drones st k")
  case None
  with assms show ?thesis
    by (simp add: path_of_def existing_drone_def next_path_def)
next
  case (Some d)
  with assms have "d ''path'' = Some (JArr xs)"
    by (auto simp: path_of_def split: option.splits jsval.splits)
  with Some show ?thesis
    by (simp add: existing_drone_def next_path_def)
qed

lemma addOrUpdateDrone_ok:
  assumes "ToString ts (objget dd ''id'') = Inr k" and "path_of st k = Some xs"
  shows "addOrUpdateDrone ts st now dd =
    Inr (st\<lparr>drones := (drones st)(k \<mapsto>
       (existing_drone st k ++ dd)
         (''path'' \<mapsto> JArr (xs @ [JArr [objget dd ''lon'', objget dd ''lat'']]),
          ''firstSeen'' \<mapsto> next_firstSeen (existing_drone st k) now))\<rparr>)"
  using assms by (simp add: addOrUpdateDrone_def next_path_ok Let_def)

lemma reconcile_restricted:
  assumes "\<not> isAllowed (ev_id e)" and "ToString ts (ev_id e) = Inr k"
    and "path_of (store w) k = Some xs"
    and "l = (case frozenPos w k of None \<Rightarrow> lock_of e | Some l' \<Rightarrow> l')"
  shows "reconcile ts w now e =
    (None, \<lparr>store = (store w)\<lparr>drones := (drones (store w))(k \<mapsto>
              (existing_drone (store w) k ++
                 droneData_of (ev_id e) (lock_lon l) (lock_lat l) (lock_yaw l) (ev_p e))
              (''path'' \<mapsto> JArr (xs @ [lock_point l]),
               ''firstSeen'' \<mapsto> next_firstSeen (existing_drone (store w) k) now))\<rparr>,
            frozenPos = (frozenPos w)(k \<mapsto> l)\<rparr>)"
  using assms
  by (cases "frozenPos w k")
     (auto simp: reconcile_def call_store_def addOrUpdateDrone_ok lock_point_def fun_upd_idem)

lemma reconcile_admitted:
  assumes "isAllowed (ev_id e)" and "ToString ts (ev_id e) = Inr k"
    and "path_of (store w) k = Some xs"
  shows "reconcile ts w now e =
    (None, \<lparr>store = (store w)\<lparr>drones := (drones (store w))(k \<mapsto>
              (existing_drone (store w) k ++
                 droneData_of (ev_id e) (ev_lon e) (ev_lat e) (ev_yaw e) (ev_p e))
              (''path'' \<mapsto> JArr (xs @ [point_of e]),
               ''firstSeen'' \<mapsto> next_firstSeen (existing_drone (store w) k) now))\<rparr>,
            frozenPos = (frozenPos w)(k := None)\<rparr>)"
  using assms
  by (auto simp: reconcile_def call_store_def addOrUpdateDrone_ok point_of_def)

lemma stored_field_upd [simp]:
  "stored_field (st\<lparr>drones := (drones st)(k \<mapsto> d)\<rparr>) k f = d f"
  by (simp add: stored_field_def)

lemma path_of_upd [simp]:
  "path_of (st\<lparr>drones := (drones st)(k \<mapsto> d(''path'' \<mapsto> JArr xs, ''firstSeen'' \<mapsto> v))\<rparr>) k = Some xs"
  by (simp add: path_of_def)

lemma path_of_fresh: "drones st k = None \<Longrightarrow> path_of st k = Some []"
  by (simp add: path_of_def)

lemma droneData_of_apply [simp]:
  "droneData_of i lo la y p ''id'' = Some i"
  "droneData_of i lo la y p ''lon'' = Some lo"
  "droneData_of i lo la y p ''lat'' = Some la"
  "droneData_of i lo la y p ''yaw'' = Some y"
  "droneData_of i lo la y p ''altitude'' = Some (getprop p ''altitude'')"
  "droneData_of i lo la y p ''registration'' = Some (getprop p ''registration'')"
  "droneData_of i lo la y p ''name'' = Some (getprop p ''Name'')"
  "droneData_of i lo la y p ''pilot'' = Some (getprop p ''pilot'')"
  "droneData_of i lo la y p ''organization'' = Some (getprop p ''organization'')"
  "droneData_of i lo la y p ''path'' = None"
  "droneData_of i lo la y p ''firstSeen'' = None"
  by (simp_all add: droneData_of_def)

lemma addOrUpdateDrone_InrE:
  assumes "addOrUpdateDrone ts st now dd = Inr st'"
  obtains k p where "ToString ts (objget dd ''id'') = Inr k"
    and "st' = st\<lparr>drones := (drones st)(k \<mapsto>
            (existing_drone st k ++ dd)
              (''path'' \<mapsto> p, ''firstSeen'' \<mapsto> next_firstSeen (existing_drone st k) now))\<rparr>"
  using assms
  by (auto simp: addOrUpdateDrone_def Let_def split: sum.splits)

lemma reconcile_store_cases:
  "store (snd (reconcile ts w now e)) = store w
   \<or> (\<exists>lo la y. fst (reconcile ts w now e) = None
         \<and> addOrUpdateDrone ts (store w) now (droneData_of (ev_id e) lo la y (ev_p e))
             = Inr (store (snd (reconcile ts w now e))))"
proof (cases "ToString ts (ev_id e)")
  case (Inl err)
  then show ?thesis by (simp add: reconcile_def)
next
  case (Inr key)
  show ?thesis
  proof (cases "isAllowed (ev_id e)")
    case True
    then show ?thesis
      using Inr
      by (cases "addOrUpdateDrone ts (store w) now
                   (droneData_of (ev_id e) (ev_lon e) (ev_lat e) (ev_yaw e) (ev_p e))")
         (auto simp: reconcile_def call_store_def)
  next
    case False
    define l where "l = (case frozenPos w key of None \<Rightarrow> lock_of e | Some l' \<Rightarrow> l')"
    have "reconcile ts w now e =
        call_store (w\<lparr>frozenPos := (frozenPos w)(key \<mapsto> l)\<rparr>)
          (addOrUpdateDrone ts (store w) now
             (droneData_of (ev_id e) (lock_lon l) (lock_lat l) (lock_yaw l) (ev_p e)))"
      using False Inr
      by (cases "frozenPos w key") (auto simp: reconcile_def l_def fun_upd_idem)
    then show ?thesis
      by (cases "addOrUpdateDrone ts (store w) now
                   (droneData_of (ev_id e) (lock_lon l) (lock_lat l) (lock_yaw l) (ev_p e))")
         (auto simp: call_store_def)
  qed
qed

lemma restricted_step:
  assumes "\<not> isAllowed (ev_id e)" and "ToString ts (ev_id e) = Inr k"
    and "frozenPos w k = Some l" and "path_of (store w) k = Some xs"
  shows "frozenPos (snd (reconcile ts w now e)) k = Some l"
    and "path_of (store (snd (reconcile ts w now e))) k = Some (xs @ [lock_point l])"
    and "stored_field (store (snd (reconcile ts w now e))) k ''lon'' = Some (lock_lon l)"
    and "stored_field (store (snd (reconcile ts w now e))) k ''lat'' = Some (lock_lat l)"
    and "stored_field (store (snd (reconcile ts w now e))) k ''yaw'' = Some (lock_yaw l)"
  using assms by (simp_all add: reconcile_restricted [where l = l and xs = xs])

lemma restricted_first_step:
  assumes "\<not> isAllowed (ev_id e)" and "ToString ts (ev_id e) = Inr k"
    and "frozenPos w k = None" and "path_of (store w) k = Some xs"
  shows "frozenPos (snd (reconcile ts w now e)) k = Some (lock_of e)"
    and "path_of (store (snd (reconcile ts w now e))) k = Some (xs @ [lock_point (lock_of e)])"
    and "stored_field (store (snd (reconcile ts w now e))) k ''lon'' = Some (ev_lon e)"
    and "stored_field (store (snd (reconcile ts w now e))) k ''lat'' = Some (ev_lat e)"
    and "stored_field (store (snd (reconcile ts w now e))) k ''yaw'' = Some (ev_yaw e)"
  using assms by (simp_all add: reconcile_restricted [where l = "lock_of e" and xs = xs] lock_of_def)

lemma admitted_step:
  assumes "isAllowed (ev_id e)" and "ToString ts (ev_id e) = Inr k"
    and "path_of (store w) k = Some xs"
  shows "frozenPos (snd (reconcile ts w now e)) k = None"
    and "path_of (store (snd (reconcile ts w now e))) k = Some (xs @ [point_of e])"
    and "stored_field (store (snd (reconcile ts w now e))) k ''lon'' = Some (ev_lon e)"
    and "stored_field (store (snd (reconcile ts w now e))) k ''lat'' = Some (ev_lat e)"
    and "stored_field (store (snd (reconcile ts w now e))) k ''yaw'' = Some (ev_yaw e)"
  using assms by (simp_all add: reconcile_admitted [where xs = xs])

lemma restricted_run:
  assumes "\<not> isAllowed i" and "ToString ts i = Inr k"
    and "\<forall>(t, e) \<in> set evs. ev_id e = i"
    and "frozenPos w k = Some l" and "path_of (store w) k = Some xs"
  shows "frozenPos (reconcile_all ts w evs) k = Some l
       \<and> path_of (store (reconcile_all ts w evs)) k = Some (xs @ replicate (length evs) (lock_point l))"
  using assms(3-5)
proof (induction evs arbitrary: w xs)
  case Nil
  then show ?case by simp
next
  case (Cons te evs)
  obtain t e where te: "te = (t, e)" by (cases te)
  with Cons.prems have ide: "ev_id e = i" by simp
  note step = restricted_step [of e ts k w l xs t]
  have "frozenPos (snd (reconcile ts w t e)) k = Some l"
    and "path_of (store (snd (reconcile ts w t e))) k = Some (xs @ [lock_point l])"
    using step assms(1,2) ide Cons.prems by simp_all
  with Cons.IH [of "snd (reconcile ts w t e)" "xs @ [lock_point l]"] Cons.prems(1)
  show ?case
    by (simp add: te replicate_append_same)
qed

lemma admitted_run:
  assumes "isAllowed i" and "ToString ts i = Inr k"
    and "\<forall>(t, e) \<in> set evs. ev_id e = i"
    and "path_of (store w) k = Some xs"
  shows "path_of (store (reconcile_all ts w evs)) k = Some (xs @ map (\<lambda>(t, e). point_of e) evs)"
  using assms(3,4)
proof (induction evs arbitrary: w xs)
  case Nil
  then show ?case by simp
next
  case (Cons te evs)
  obtain t e where te: "te = (t, e)" by (cases te)
  with Cons.prems have ide: "ev_id e = i" by simp
  have "path_of (store (snd (reconcile ts w t e))) k = Some (xs @ [point_of e])"
    using admitted_step(2) [of e ts k w xs t] assms(1,2) ide Cons.prems by simp
  with Cons.IH [of "snd (reconcile ts w t e)" "xs @ [point_of e]"] Cons.prems(1)
  show ?case
    by (simp add: te)
qed

lemma lock_point_lock_of [simp]: "lock_point (lock_of e) = point_of e"
  by (simp add: lock_point_def lock_of_def point_of_def)

lemma restricted_run_unlocked:
  assumes "\<not> isAllowed i" and "ToString ts i = Inr k"
    and "\<forall>(t, e) \<in> set ((t0, e0) # rest). ev_id e = i"
    and "frozenPos w k = None" and "path_of (store w) k = Some xs"
  shows "frozenPos (reconcile_all ts w ((t0, e0) # rest)) k = Some (lock_of e0)
       \<and> path_of (store (reconcile_all ts w ((t0, e0) # rest))) k =
           Some (xs @ replicate (Suc (length rest)) (point_of e0))"
proof -
  have id0: "ev_id e0 = i" and rest: "\<forall>(t, e) \<in> set rest. ev_id e = i"
    using assms(3) by simp_all
  have "frozenPos (snd (reconcile ts w t0 e0)) k = Some (lock_of e0)"
    and "path_of (store (snd (reconcile ts w t0 e0))) k = Some (xs @ [point_of e0])"
    using restricted_first_step(1,2) [of e0 ts k w xs t0] assms(1,2,4,5) id0 by simp_all
  from restricted_run [OF assms(1,2) rest this]
  show ?thesis
    by (simp add: replicate_append_same)
qed

lemma addOrUpdateDrone_frame:
  assumes "addOrUpdateDrone ts st now dd = Inr st'"
  shows "selectedDroneId st' = selectedDroneId st"
    and "ToString ts (objget dd ''id'') \<noteq> Inr k' \<Longrightarrow> drones st' k' = drones st k'"
  using assms by (auto elim!: addOrUpdateDrone_InrE)

lemma reconcile_frame:
  shows "selectedDroneId (store (snd (reconcile ts w now e))) = selectedDroneId (store w)"
    and "ToString ts (ev_id e) \<noteq> Inr k' \<Longrightarrow>
           drones (store (snd (reconcile ts w now e))) k' = drones (store w) k'"
  using reconcile_store_cases [of ts w now e]
  by (auto dest: addOrUpdateDrone_frame)

lemma next_firstSeen_empty [simp]: "next_firstSeen Map.empty now = JNum now"
  by (simp add: next_firstSeen_def)

lemma existing_drone_simps [simp]:
  "drones st k = None \<Longrightarrow> existing_drone st k = Map.empty"
  "drones st k = Some d \<Longrightarrow> existing_drone st k = d"
  by (simp_all add: existing_drone_def)

lemma firstSeen_kept_store:
  assumes "addOrUpdateDrone ts st now dd = Inr st'"
    and "stored_field st k ''firstSeen'' = Some f" and "truthy f"
  shows "stored_field st' k ''firstSeen'' = Some f"
proof -
  from assms(2) obtain d where d: "drones st k = Some d" "d ''firstSeen'' = Some f"
    by (auto simp: stored_field_def split: option.splits)
  from assms(1) obtain k0 p where
    st': "st' = st\<lparr>drones := (drones st)(k0 \<mapsto>
            (existing_drone st k0 ++ dd)
              (''path'' \<mapsto> p, ''firstSeen'' \<mapsto> next_firstSeen (existing_drone st k0) now))\<rparr>"
    by (rule addOrUpdateDrone_InrE)
  show ?thesis
  proof (cases "k0 = k")
    case True
    with d assms(3) show ?thesis
      by (simp add: st' next_firstSeen_def)
  next
    case False
    with d show ?thesis
      by (simp add: st' stored_field_def)
  qed
qed

lemma firstSeen_kept:
  assumes "stored_field (store w) k ''firstSeen'' = Some f" and "truthy f"
  shows "stored_field (store (snd (reconcile ts w now e))) k ''firstSeen'' = Some f"
  using reconcile_store_cases [of ts w now e] assms
  by (auto dest: firstSeen_kept_store)

lemma firstSeen_kept_run:
  assumes "stored_field (store w) k ''firstSeen'' = Some f" and "truthy f"
  shows "stored_field (store (reconcile_all ts w evs)) k ''firstSeen'' = Some f"
  using assms(1)
proof (induction evs arbitrary: w)
  case Nil
  then show ?case by simp
next
  case (Cons te evs)
  obtain t e where te: "te = (t, e)" by (cases te)
  from Cons.prems have "stored_field (store (snd (reconcile ts w t e))) k ''firstSeen'' = Some f"
    using assms(2) by (rule firstSeen_kept)
  then show ?case
    by (simp add: te Cons.IH)
qed

lemma firstSeen_stamped:
  assumes "ToString ts (ev_id e) = Inr k" and "drones (store w) k = None"
  shows "stored_field (store (snd (reconcile ts w now e))) k ''firstSeen'' = Some (JNum now)"
proof (cases "isAllowed (ev_id e)")
  case True
  from reconcile_admitted [OF True assms(1), of w "[]" now] assms(2)
  show ?thesis by (simp add: path_of_fresh)
next
  case False
  from reconcile_restricted [OF False assms(1), of w "[]" _ now] assms(2)
  show ?thesis by (simp add: path_of_fresh)
qed



lemma getprop_falsy: "\<not> truthy v \<Longrightarrow> getprop v k = JUndefined"
  by (cases v) simp_all

lemma decode_Accepted_id:
  assumes "decode fc = Accepted e"
  shows "ev_id e =
    (if truthy (getprop (getprop (first_feature fc) ''properties'') ''registration'')
     then getprop (getprop (first_feature fc) ''properties'') ''registration''
     else JStr ''SD-UNK'')"
  using assms
  by (cases "truthy (getprop (first_feature fc) ''properties'')")
     (auto simp: decode_def Let_def getprop_falsy split: if_splits option.splits)

lemma restricted_run_fields:
  assumes "\<not> isAllowed i" and "ToString ts i = Inr k"
    and "\<forall>(t, e) \<in> set evs. ev_id e = i"
    and "frozenPos w k = Some l" and "path_of (store w) k = Some xs"
    and "stored_field (store w) k ''lon'' = Some (lock_lon l)"
    and "stored_field (store w) k ''lat'' = Some (lock_lat l)"
    and "stored_field (store w) k ''yaw'' = Some (lock_yaw l)"
  shows "stored_field (store (reconcile_all ts w evs)) k ''lon'' = Some (lock_lon l)
       \<and> stored_field (store (reconcile_all ts w evs)) k ''lat'' = Some (lock_lat l)
       \<and> stored_field (store (reconcile_all ts w evs)) k ''yaw'' = Some (lock_yaw l)"
  using assms(3-8)
proof (induction evs arbitrary: w xs)
  case Nil
  then show ?case by simp
next
  case (Cons te evs)
  obtain t e where te: "te = (t, e)" by (cases te)
  with Cons.prems have ide: "ev_id e = i" by simp
  note step = restricted_step [of e ts k w l xs t]
  have "frozenPos (snd (reconcile ts w t e)) k = Some l"
    and "path_of (store (snd (reconcile ts w t e))) k = Some (xs @ [lock_point l])"
    and "stored_field (store (snd (reconcile ts w t e))) k ''lon'' = Some (lock_lon l)"
    and "stored_field (store (snd (reconcile ts w t e))) k ''lat'' = Some (lock_lat l)"
    and "stored_field (store (snd (reconcile ts w t e))) k ''yaw'' = Some (lock_yaw l)"
    using step assms(1,2) ide Cons.prems by simp_all
  with Cons.IH [of "snd (reconcile ts w t e)" "xs @ [lock_point l]"] Cons.prems(1)
  show ?case
    by (simp add: te)
qed

lemma reconcile_all_frame:
  assumes "\<forall>(t, e) \<in> set evs. ToString ts (ev_id e) \<noteq> Inr k'"
  shows "drones (store (reconcile_all ts w evs)) k' = drones (store w) k'"
  using assms
proof (induction evs arbitrary: w)
  case Nil
  then show ?case by simp
next
  case (Cons te evs)
  obtain t e where te: "te = (t, e)" by (cases te)
  with Cons.prems Cons.IH [of "snd (reconcile ts w t e)"] show ?case
    by (simp add: reconcile_frame)
qed

lemma reconcile_NoneE:
  assumes "fst (reconcile ts w now e) = None"
  obtains lo la y where
    "addOrUpdateDrone ts (store w) now (droneData_of (ev_id e) lo la y (ev_p e))
       = Inr (store (snd (reconcile ts w now e)))"
proof (cases "ToString ts (ev_id e)")
  case (Inl err)
  with assms show ?thesis by (simp add: reconcile_def split: if_splits)
next
  case (Inr key)
  show ?thesis
  proof (cases "isAllowed (ev_id e)")
    case True
    with assms Inr that show ?thesis
      by (cases "addOrUpdateDrone ts (store w) now
                   (droneData_of (ev_id e) (ev_lon e) (ev_lat e) (ev_yaw e) (ev_p e))")
         (auto simp: reconcile_def call_store_def)
  next
    case False
    define l where "l = (case frozenPos w key of None \<Rightarrow> lock_of e | Some l' \<Rightarrow> l')"
    have "reconcile ts w now e =
        call_store (w\<lparr>frozenPos := (frozenPos w)(key \<mapsto> l)\<rparr>)
          (addOrUpdateDrone ts (store w) now
             (droneData_of (ev_id e) (lock_lon l) (lock_lat l) (lock_yaw l) (ev_p e)))"
      using False Inr
      by (cases "frozenPos w key") (auto simp: reconcile_def l_def fun_upd_idem)
    with assms that show ?thesis
      by (cases "addOrUpdateDrone ts (store w) now
                   (droneData_of (ev_id e) (lock_lon l) (lock_lat l) (lock_yaw l) (ev_p e))")
         (auto simp: call_store_def)
  qed
qed

lemma addOrUpdateDrone_field:
  assumes "addOrUpdateDrone ts st now dd = Inr st'" and "ToString ts (objget dd ''id'') = Inr k"
    and "f \<noteq> ''path''" and "f \<noteq> ''firstSeen''"
  shows "stored_field st' k f = (case dd f of Some v \<Rightarrow> Some v | None \<Rightarrow> stored_field st k f)"
  using assms
  by (auto elim!: addOrUpdateDrone_InrE
      simp: stored_field_def existing_drone_def map_add_def split: option.splits)

lemma store_after_frame:
  shows "selectedDroneId (store_after st (addOrUpdateDrone ts st now dd)) = selectedDroneId st"
    and "ToString ts (objget dd ''id'') \<noteq> Inr k' \<Longrightarrow>
           drones (store_after st (addOrUpdateDrone ts st now dd)) k' = drones st k'"
  by (cases "addOrUpdateDrone ts st now dd"; auto simp: store_after_def dest: addOrUpdateDrone_frame)+

lemma plain_event_simps [simp]:
  "ev_id (plain_event reg lon lat yaw) = JStr reg"
  "ev_lon (plain_event reg lon lat yaw) = JNum lon"
  "ev_lat (plain_event reg lon lat yaw) = JNum lat"
  "ev_yaw (plain_event reg lon lat yaw) = JNum yaw"
  "ev_p (plain_event reg lon lat yaw) = JObj [(''registration'', JStr reg), (''yaw'', JNum yaw)]"
  by (simp_all add: plain_event_def)

lemma initial_world_simps [simp]:
  "frozenPos initial_world k = None"
  "drones (store initial_world) k = None"
  "selectedDroneId (store initial_world) = JNull"
  "path_of (store initial_world) k = Some []"
  by (simp_all add: initial_world_def initial_store_def path_of_def)

lemmas run_defs =
  onMessage_def decode_def telemetry_def first_feature_def geometry_type_def
  nth_or_undefined_def reconcile_def isAllowed_JStr call_store_def addOrUpdateDrone_def
  existing_drone_def next_path_def next_firstSeen_def objget_def lock_of_def
  stored_field_def path_of_def initial_world_def initial_store_def store_after_def Let_def

lemma path_of_cong: "drones st' k = drones st k \<Longrightarrow> path_of st' k = path_of st k"
  by (simp add: path_of_def)

lemma path_never_shrinks_store:
  assumes "addOrUpdateDrone ts st now dd = Inr st'" and "path_of st k = Some xs"
  shows "\<exists>zs. path_of st' k = Some (xs @ zs)"
proof -
  from assms(1) obtain k0 p where k0: "ToString ts (objget dd ''id'') = Inr k0"
    and st': "st' = st\<lparr>drones := (drones st)(k0 \<mapsto>
            (existing_drone st k0 ++ dd)
              (''path'' \<mapsto> p, ''firstSeen'' \<mapsto> next_firstSeen (existing_drone st k0) now))\<rparr>"
    by (rule addOrUpdateDrone_InrE)
  show ?thesis
  proof (cases "k0 = k")
    case True
    from addOrUpdateDrone_ok [OF k0 [unfolded True] assms(2), of now] assms(1)
    show ?thesis by auto
  next
    case False
    then have "path_of st' k = path_of st k"
      by (intro path_of_cong) (simp add: st')
    with assms(2) show ?thesis by simp
  qed
qed

lemma path_never_shrinks:
  assumes "path_of (store w) k = Some xs"
  shows "\<exists>zs. path_of (store (snd (reconcile ts w now e))) k = Some (xs @ zs)"
  using reconcile_store_cases [of ts w now e] assms
  by (auto dest: path_never_shrinks_store)



lemma decode_telemetry_plain:
  "reg \<noteq> [] \<Longrightarrow>
   decode (telemetry (JArr [JNum lon, JNum lat])
             (JObj [(''registration'', JStr reg), (''yaw'', JNum yaw)]))
     = Accepted (plain_event reg lon lat yaw)"
  by (simp add: decode_def telemetry_def first_feature_def geometry_type_def
      nth_or_undefined_def plain_event_def Let_def)

lemma onMessage_Accepted: "decode fc = Accepted e \<Longrightarrow> onMessage ts w now fc = reconcile ts w now e"
  by (simp add: onMessage_def)

lemma rejected_message_keeps_state:
  assumes "\<And>e. decode fc \<noteq> Accepted e"
  shows "snd (onMessage ts w now fc) = w"
  using assms by (cases "decode fc") (auto simp: onMessage_def)

section \<open>The claims\<close>

text \<open>
  C1. A restricted identifier is seen for the first time (no lock and no drone under its
  key) and two events for it are reconciled in sequence. Both calls return normally, and
  the stored drone has the longitude, latitude and yaw of the first event, whatever the
  second event carries; its path is the first event's position twice, and the lock holds
  the first event's values.
\<close>

theorem frozen_position_is_first_event:
  assumes "\<not> isAllowed i" and "ToString ts i = Inr k"
    and "ev_id e1 = i" and "ev_id e2 = i"
    and "frozenPos w k = None" and "drones (store w) k = None"
  shows "fst (reconcile ts w t1 e1) = None
       \<and> fst (reconcile ts (snd (reconcile ts w t1 e1)) t2 e2) = None
       \<and> stored_field (store (reconcile_all ts w [(t1, e1), (t2, e2)])) k ''lon'' = Some (ev_lon e1)
       \<and> stored_field (store (reconcile_all ts w [(t1, e1), (t2, e2)])) k ''lat'' = Some (ev_lat e1)
       \<and> stored_field (store (reconcile_all ts w [(t1, e1), (t2, e2)])) k ''yaw'' = Some (ev_yaw e1)
       \<and> stored_field (store (reconcile_all ts w [(t1, e1), (t2, e2)])) k ''path'' =
            Some (JArr [JArr [ev_lon e1, ev_lat e1], JArr [ev_lon e1, ev_lat e1]])
       \<and> frozenPos (reconcile_all ts w [(t1, e1), (t2, e2)]) k = Some (lock_of e1)"
proof -
  define w1 where "w1 = snd (reconcile ts w t1 e1)"
  define w2 where "w2 = snd (reconcile ts w1 t2 e2)"
  have all: "reconcile_all ts w [(t1, e1), (t2, e2)] = w2"
    by (simp add: w1_def w2_def)
  have "path_of (store w) k = Some []"
    using assms by (simp add: path_of_fresh)
  then have r1: "reconcile ts w t1 e1 =
     (None, \<lparr>store = (store w)\<lparr>drones := (drones (store w))(k \<mapsto>
              (existing_drone (store w) k ++
                 droneData_of (ev_id e1) (lock_lon (lock_of e1)) (lock_lat (lock_of e1))
                   (lock_yaw (lock_of e1)) (ev_p e1))
              (''path'' \<mapsto> JArr ([] @ [lock_point (lock_of e1)]),
               ''firstSeen'' \<mapsto> next_firstSeen (existing_drone (store w) k) t1))\<rparr>,
            frozenPos = (frozenPos w)(k \<mapsto> lock_of e1)\<rparr>)"
    using assms by (intro reconcile_restricted) simp_all
  have f1: "frozenPos w1 k = Some (lock_of e1)"
    by (simp add: w1_def r1)
  have p1: "path_of (store w1) k = Some [lock_point (lock_of e1)]"
    by (simp add: w1_def r1)
  have r2: "reconcile ts w1 t2 e2 =
    (None, \<lparr>store = (store w1)\<lparr>drones := (drones (store w1))(k \<mapsto>
              (existing_drone (store w1) k ++
                 droneData_of (ev_id e2) (lock_lon (lock_of e1)) (lock_lat (lock_of e1))
                   (lock_yaw (lock_of e1)) (ev_p e2))
              (''path'' \<mapsto> JArr ([lock_point (lock_of e1)] @ [lock_point (lock_of e1)]),
               ''firstSeen'' \<mapsto> next_firstSeen (existing_drone (store w1) k) t2))\<rparr>,
            frozenPos = (frozenPos w1)(k \<mapsto> lock_of e1)\<rparr>)"
    using assms f1 p1 by (intro reconcile_restricted) simp_all
  have "fst (reconcile ts w t1 e1) = None"
    by (simp add: r1)
  moreover have "fst (reconcile ts (snd (reconcile ts w t1 e1)) t2 e2) = None"
    using r2 by (simp add: w1_def)
  moreover have "stored_field (store w2) k ''lon'' = Some (ev_lon e1)"
    by (simp add: w2_def r2 lock_of_def)
  moreover have "stored_field (store w2) k ''lat'' = Some (ev_lat e1)"
    by (simp add: w2_def r2 lock_of_def)
  moreover have "stored_field (store w2) k ''yaw'' = Some (ev_yaw e1)"
    by (simp add: w2_def r2 lock_of_def)
  moreover have "stored_field (store w2) k ''path'' =
      Some (JArr [JArr [ev_lon e1, ev_lat e1], JArr [ev_lon e1, ev_lat e1]])"
    by (simp add: w2_def r2 lock_of_def lock_point_def)
  moreover have "frozenPos w2 k = Some (lock_of e1)"
    by (simp add: w2_def r2)
  ultimately show ?thesis
    unfolding all by blast
qed

theorem frozen_position_is_first_event_witness:
  "decode (telemetry (JArr [JNum 10, JNum 20])
             (JObj [(''registration'', JStr ''SD-A02''), (''yaw'', JNum 45)]))
     = Accepted (plain_event ''SD-A02'' 10 20 45)
   \<and> decode (telemetry (JArr [JNum 99, JNum 99])
             (JObj [(''registration'', JStr ''SD-A02''), (''yaw'', JNum 1)]))
     = Accepted (plain_event ''SD-A02'' 99 99 1)
   \<and> \<not> isAllowed (JStr ''SD-A02'')
   \<and> ToString ts_throw (JStr ''SD-A02'') = Inr ''SD-A02''
   \<and> frozenPos initial_world ''SD-A02'' = None
   \<and> drones (store initial_world) ''SD-A02'' = None
   \<and> stored_field (store (reconcile_all ts_throw initial_world
         [(1000, plain_event ''SD-A02'' 10 20 45), (2000, plain_event ''SD-A02'' 99 99 1)]))
        ''SD-A02'' ''lon'' = Some (JNum 10)
   \<and> stored_field (store (reconcile_all ts_throw initial_world
         [(1000, plain_event ''SD-A02'' 10 20 45), (2000, plain_event ''SD-A02'' 99 99 1)]))
        ''SD-A02'' ''lat'' = Some (JNum 20)
   \<and> stored_field (store (reconcile_all ts_throw initial_world
         [(1000, plain_event ''SD-A02'' 10 20 45), (2000, plain_event ''SD-A02'' 99 99 1)]))
        ''SD-A02'' ''yaw'' = Some (JNum 45)
   \<and> stored_field (store (reconcile_all ts_throw initial_world
         [(1000, plain_event ''SD-A02'' 10 20 45), (2000, plain_event ''SD-A02'' 99 99 1)]))
        ''SD-A02'' ''path'' = Some (JArr [JArr [JNum 10, JNum 20], JArr [JNum 10, JNum 20]])"
  using frozen_position_is_first_event
    [of "JStr ''SD-A02''" ts_throw "''SD-A02''"
        "plain_event ''SD-A02'' 10 20 45" "plain_event ''SD-A02'' 99 99 1" initial_world 1000 2000]
  by (simp add: isAllowed_JStr decode_telemetry_plain)

text \<open>
  C2, as the code has it. \<open>addOrUpdateDrone\<close> overlays \<open>droneData\<close> key by key: a
  key that \<open>droneData\<close> does not have keeps its stored value, and a key it has takes
  the new value, \<open>undefined\<close> included. The handler always passes the keys
  \<open>altitude\<close>, \<open>registration\<close>, \<open>name\<close>, \<open>pilot\<close> and
  \<open>organization\<close>, so after every reconciliation that returns normally each of them
  is what the event's properties hold, \<open>undefined\<close> when the property is missing.
\<close>

theorem metadata_overlay:
  "(ToString ts (objget dd ''id'') = Inr k \<longrightarrow> path_of st k \<noteq> None \<longrightarrow>
      f \<noteq> ''path'' \<longrightarrow> f \<noteq> ''firstSeen'' \<longrightarrow>
        (\<exists>st'. addOrUpdateDrone ts st now dd = Inr st'
           \<and> stored_field st' k f = (case dd f of None \<Rightarrow> stored_field st k f | Some v \<Rightarrow> Some v)))
   \<and> (ToString ts (ev_id e) = Inr k \<longrightarrow> path_of (store w) k \<noteq> None \<longrightarrow>
        fst (reconcile ts w t e) = None
        \<and> stored_field (store (snd (reconcile ts w t e))) k ''altitude''
          = Some (getprop (ev_p e) ''altitude'')
        \<and> stored_field (store (snd (reconcile ts w t e))) k ''registration''
          = Some (getprop (ev_p e) ''registration'')
        \<and> stored_field (store (snd (reconcile ts w t e))) k ''name''
          = Some (getprop (ev_p e) ''Name'')
        \<and> stored_field (store (snd (reconcile ts w t e))) k ''pilot''
          = Some (getprop (ev_p e) ''pilot'')
        \<and> stored_field (store (snd (reconcile ts w t e))) k ''organization''
          = Some (getprop (ev_p e) ''organization''))"
proof -
  have store_part: "\<exists>st'. addOrUpdateDrone ts st now dd = Inr st'
           \<and> stored_field st' k f = (case dd f of None \<Rightarrow> stored_field st k f | Some v \<Rightarrow> Some v)"
    if key: "ToString ts (objget dd ''id'') = Inr k" and path: "path_of st k \<noteq> None"
      and f: "f \<noteq> ''path''" "f \<noteq> ''firstSeen''"
  proof -
    from path obtain xs where "path_of st k = Some xs" by auto
    from addOrUpdateDrone_ok [OF key this, of now]
    obtain st' where st': "addOrUpdateDrone ts st now dd = Inr st'" by simp
    from addOrUpdateDrone_field [OF st' key f] st' show ?thesis
      by (auto split: option.splits)
  qed
  have ok: "fst (reconcile ts w t e) = None"
    if key: "ToString ts (ev_id e) = Inr k" and path: "path_of (store w) k \<noteq> None"
  proof -
    from path obtain xs where xs: "path_of (store w) k = Some xs" by auto
    show ?thesis
    proof (cases "isAllowed (ev_id e)")
      case True
      from reconcile_admitted [OF True key xs] show ?thesis by simp
    next
      case False
      from reconcile_restricted [OF False key xs refl] show ?thesis by simp
    qed
  qed
  have field: "stored_field (store (snd (reconcile ts w t e))) k f = Some (getprop (ev_p e) g)"
    if key: "ToString ts (ev_id e) = Inr k" and path: "path_of (store w) k \<noteq> None"
      and f: "f \<noteq> ''path''" "f \<noteq> ''firstSeen''"
      and g: "\<And>lo la y. droneData_of (ev_id e) lo la y (ev_p e) f = Some (getprop (ev_p e) g)"
    for f g
  proof -
    from ok [OF key path] obtain lo la y where
      "addOrUpdateDrone ts (store w) t (droneData_of (ev_id e) lo la y (ev_p e))
         = Inr (store (snd (reconcile ts w t e)))"
      by (rule reconcile_NoneE)
    from addOrUpdateDrone_field [OF this _ f] key g show ?thesis
      by simp
  qed
  from store_part ok field show ?thesis
    by simp
qed

theorem metadata_overlay_witness:
  "ToString ts_throw (objget [''id'' \<mapsto> JStr ''SD-B17'', ''lon'' \<mapsto> JNum 36, ''lat'' \<mapsto> JNum 32] ''id'')
     = Inr ''SD-B17''
   \<and> stored_field
        (store (snd (reconcile ts_throw initial_world 1000
           \<lparr>ev_id = JStr ''SD-B17'', ev_lon = JNum 35, ev_lat = JNum 31, ev_yaw = JNum 0,
            ev_p = JObj [(''registration'', JStr ''SD-B17''), (''altitude'', JNum 120)]\<rparr>)))
        ''SD-B17'' ''altitude'' = Some (JNum 120)
   \<and> (\<exists>st'. addOrUpdateDrone ts_throw
          (store (snd (reconcile ts_throw initial_world 1000
             \<lparr>ev_id = JStr ''SD-B17'', ev_lon = JNum 35, ev_lat = JNum 31, ev_yaw = JNum 0,
              ev_p = JObj [(''registration'', JStr ''SD-B17''), (''altitude'', JNum 120)]\<rparr>)))
          2000 [''id'' \<mapsto> JStr ''SD-B17'', ''lon'' \<mapsto> JNum 36, ''lat'' \<mapsto> JNum 32] = Inr st'
        \<and> stored_field st' ''SD-B17'' ''altitude'' = Some (JNum 120))
   \<and> fst (reconcile ts_throw
          (snd (reconcile ts_throw initial_world 1000
             \<lparr>ev_id = JStr ''SD-B17'', ev_lon = JNum 35, ev_lat = JNum 31, ev_yaw = JNum 0,
              ev_p = JObj [(''registration'', JStr ''SD-B17''), (''altitude'', JNum 120)]\<rparr>))
          2000 (plain_event ''SD-B17'' 36 32 80)) = None
   \<and> stored_field (store (snd (reconcile ts_throw
          (snd (reconcile ts_throw initial_world 1000
             \<lparr>ev_id = JStr ''SD-B17'', ev_lon = JNum 35, ev_lat = JNum 31, ev_yaw = JNum 0,
              ev_p = JObj [(''registration'', JStr ''SD-B17''), (''altitude'', JNum 120)]\<rparr>))
          2000 (plain_event ''SD-B17'' 36 32 80)))) ''SD-B17'' ''altitude'' = Some JUndefined"
proof -
  define w1 where "w1 = snd (reconcile ts_throw initial_world 1000
           \<lparr>ev_id = JStr ''SD-B17'', ev_lon = JNum 35, ev_lat = JNum 31, ev_yaw = JNum 0,
            ev_p = JObj [(''registration'', JStr ''SD-B17''), (''altitude'', JNum 120)]\<rparr>)"
  have path: "path_of (store w1) ''SD-B17'' \<noteq> None"
    and alt: "stored_field (store w1) ''SD-B17'' ''altitude'' = Some (JNum 120)"
    by (simp_all add: w1_def run_defs)
  from path alt
    metadata_overlay
      [of ts_throw "[''id'' \<mapsto> JStr ''SD-B17'', ''lon'' \<mapsto> JNum 36, ''lat'' \<mapsto> JNum 32]"
          "''SD-B17''" "store w1" "''altitude''" 2000 "plain_event ''SD-B17'' 36 32 80" w1 2000]
  show ?thesis
    unfolding w1_def [symmetric] by simp
qed

text \<open>
  C2, as the specification has it, fails: a message with altitude 120 and then a message
  without altitude for the same admitted drone leave the stored altitude \<open>undefined\<close>.
\<close>

theorem undefined_altitude_overwrites_counterexample:
  "stored_field
     (store (snd (onMessage ts_throw initial_world 1000
        (telemetry (JArr [JNum 35, JNum 31])
           (JObj [(''registration'', JStr ''SD-B17''), (''altitude'', JNum 120)])))))
     ''SD-B17'' ''altitude'' = Some (JNum 120)
   \<and> stored_field
     (store (snd (onMessage ts_throw
        (snd (onMessage ts_throw initial_world 1000
           (telemetry (JArr [JNum 35, JNum 31])
              (JObj [(''registration'', JStr ''SD-B17''), (''altitude'', JNum 120)]))))
        2000
        (telemetry (JArr [JNum 36, JNum 32]) (JObj [(''registration'', JStr ''SD-B17'')])))))
     ''SD-B17'' ''altitude'' = Some JUndefined"
  by (simp add: run_defs)

text \<open>
  C3. Events for one identifier, reconciled in sequence, append one element each to the
  path stored under its key and leave the elements already there in place: after \<open>N\<close>
  events an unseen identifier has a path of exactly \<open>N\<close> elements. For an admitted
  identifier the new elements are the positions of the events in arrival order; for a
  restricted one each is the locked position (the lock already held, or the first
  event's position when there was none). And no reconciliation, of whatever event,
  removes or reorders what a stored path holds: the path after it starts with the path
  before it.
\<close>

theorem path_has_one_element_per_event:
  assumes "ToString ts i = Inr k"
    and "\<forall>(t, e) \<in> set evs. ev_id e = i"
    and "path_of (store w) k = Some xs"
  shows "(\<exists>ys. path_of (store (reconcile_all ts w evs)) k = Some (xs @ ys)
           \<and> length ys = length evs
           \<and> (isAllowed i \<longrightarrow> ys = map (\<lambda>(t, e). point_of e) evs)
           \<and> (\<not> isAllowed i \<longrightarrow>
                (\<forall>l. frozenPos w k = Some l \<longrightarrow> ys = replicate (length evs) (lock_point l)))
           \<and> (\<not> isAllowed i \<longrightarrow> frozenPos w k = None \<longrightarrow>
                (\<forall>t e rest. evs = (t, e) # rest \<longrightarrow> ys = replicate (length evs) (point_of e))))
      \<and> (\<forall>w' t' e' k' xs'. path_of (store w') k' = Some xs' \<longrightarrow>
           (\<exists>zs. path_of (store (snd (reconcile ts w' t' e'))) k' = Some (xs' @ zs)))"
proof
  show "\<forall>w' t' e' k' xs'. path_of (store w') k' = Some xs' \<longrightarrow>
           (\<exists>zs. path_of (store (snd (reconcile ts w' t' e'))) k' = Some (xs' @ zs))"
    by (simp add: path_never_shrinks)
  show "\<exists>ys. path_of (store (reconcile_all ts w evs)) k = Some (xs @ ys)
           \<and> length ys = length evs
           \<and> (isAllowed i \<longrightarrow> ys = map (\<lambda>(t, e). point_of e) evs)
           \<and> (\<not> isAllowed i \<longrightarrow>
                (\<forall>l. frozenPos w k = Some l \<longrightarrow> ys = replicate (length evs) (lock_point l)))
           \<and> (\<not> isAllowed i \<longrightarrow> frozenPos w k = None \<longrightarrow>
                (\<forall>t e rest. evs = (t, e) # rest \<longrightarrow> ys = replicate (length evs) (point_of e)))"
  proof (cases "isAllowed i")
    case True
    with admitted_run [OF True assms] show ?thesis by simp
  next
    case False
    show ?thesis
    proof (cases "frozenPos w k")
      case (Some l)
      with restricted_run [OF False assms(1,2) Some assms(3)] False show ?thesis by simp
    next
      case None
      show ?thesis
      proof (cases evs)
        case Nil
        with assms(3) show ?thesis by simp
      next
        case (Cons te rest)
        obtain t0 e0 where te: "te = (t0, e0)" by (cases te)
        from restricted_run_unlocked [OF False assms(1) _ None assms(3), of t0 e0 rest] assms(2)
        show ?thesis
          using False None by (simp add: Cons te)
      qed
    qed
  qed
qed

theorem path_has_one_element_per_event_witness:
  "ToString ts_throw (JStr ''SD-B17'') = Inr ''SD-B17''
   \<and> isAllowed (JStr ''SD-B17'')
   \<and> path_of (store initial_world) ''SD-B17'' = Some []
   \<and> path_of (store (reconcile_all ts_throw initial_world
        [(1000, plain_event ''SD-B17'' 35 31 90), (2000, plain_event ''SD-B17'' 36 32 80),
         (3000, plain_event ''SD-B17'' 35 31 90)])) ''SD-B17''
      = Some [JArr [JNum 35, JNum 31], JArr [JNum 36, JNum 32], JArr [JNum 35, JNum 31]]
   \<and> \<not> isAllowed (JStr ''SD-A02'')
   \<and> frozenPos initial_world ''SD-A02'' = None
   \<and> path_of (store (reconcile_all ts_throw initial_world
        [(1000, plain_event ''SD-A02'' 10 20 45), (2000, plain_event ''SD-A02'' 99 99 1)])) ''SD-A02''
      = Some [JArr [JNum 10, JNum 20], JArr [JNum 10, JNum 20]]
   \<and> frozenPos \<lparr>store = initial_store,
                 frozenPos = [''SD-A02'' \<mapsto> \<lparr>lock_lon = JNum 1, lock_lat = JNum 2,
                                               lock_yaw = JNum 3\<rparr>]\<rparr> ''SD-A02''
       = Some \<lparr>lock_lon = JNum 1, lock_lat = JNum 2, lock_yaw = JNum 3\<rparr>
   \<and> path_of (store (reconcile_all ts_throw
          \<lparr>store = initial_store,
            frozenPos = [''SD-A02'' \<mapsto> \<lparr>lock_lon = JNum 1, lock_lat = JNum 2,
                                          lock_yaw = JNum 3\<rparr>]\<rparr>
          [(1000, plain_event ''SD-A02'' 10 20 45), (2000, plain_event ''SD-A02'' 99 99 1)]))
        ''SD-A02''
      = Some [JArr [JNum 1, JNum 2], JArr [JNum 1, JNum 2]]"
  using path_has_one_element_per_event
    [of ts_throw "JStr ''SD-B17''" "''SD-B17''"
        "[(1000, plain_event ''SD-B17'' 35 31 90), (2000, plain_event ''SD-B17'' 36 32 80),
          (3000, plain_event ''SD-B17'' 35 31 90)]" initial_world "[]"]
    path_has_one_element_per_event
    [of ts_throw "JStr ''SD-A02''" "''SD-A02''"
        "[(1000, plain_event ''SD-A02'' 10 20 45), (2000, plain_event ''SD-A02'' 99 99 1)]"
        initial_world "[]"]
    path_has_one_element_per_event
    [of ts_throw "JStr ''SD-A02''" "''SD-A02''"
        "[(1000, plain_event ''SD-A02'' 10 20 45), (2000, plain_event ''SD-A02'' 99 99 1)]"
        "\<lparr>store = initial_store,
          frozenPos = [''SD-A02'' \<mapsto> \<lparr>lock_lon = JNum 1, lock_lat = JNum 2,
                                        lock_yaw = JNum 3\<rparr>]\<rparr>" "[]"]
  by (auto simp: isAllowed_JStr point_of_def lock_point_def path_of_def initial_store_def)

text \<open>
  C4. \<open>isAllowed\<close> is true exactly of the strings that begin with \<open>SD-\<close> followed
  by \<open>B\<close>. It is false of every value that is not a string, of the empty string, of
  \<open>null\<close> and \<open>undefined\<close>, and of every string shorter than four characters; it
  always returns a boolean. Two strings that agree on their first four characters are
  classified alike, so no character past index 3 matters.
\<close>

theorem isAllowed_iff_prefix_SD_B:
  "(isAllowed v \<longleftrightarrow> (\<exists>r. v = JStr (''SD-'' @ ''B'' @ r)))
   \<and> (typeof u \<noteq> ''string'' \<longrightarrow> \<not> isAllowed u)
   \<and> \<not> isAllowed (JStr []) \<and> \<not> isAllowed JNull \<and> \<not> isAllowed JUndefined
   \<and> (length s < 4 \<longrightarrow> \<not> isAllowed (JStr s))
   \<and> (take 4 s1 = take 4 s2 \<longrightarrow> isAllowed (JStr s1) = isAllowed (JStr s2))"
proof -
  have "typeof u \<noteq> ''string'' \<longrightarrow> \<not> isAllowed u"
    by (simp add: isAllowed_def)
  moreover have "length s < 4 \<longrightarrow> \<not> isAllowed (JStr s)"
    by (auto simp: isAllowed_JStr)
  moreover have "take 4 s1 = take 4 s2 \<longrightarrow> isAllowed (JStr s1) = isAllowed (JStr s2)"
    by (simp add: isAllowed_take4)
  ultimately show ?thesis
    by (simp add: isAllowed_cases)
qed

theorem isAllowed_iff_prefix_SD_B_witness:
  "isAllowed (JStr ''SD-B17'')
   \<and> typeof (JNum 17) \<noteq> ''string'' \<and> \<not> isAllowed (JNum 17)
   \<and> length ''SD-'' < 4 \<and> \<not> isAllowed (JStr ''SD-'')
   \<and> take 4 ''SD-B17'' = take 4 ''SD-B99''
   \<and> isAllowed (JStr ''SD-B17'') = isAllowed (JStr ''SD-B99'')"
  using isAllowed_iff_prefix_SD_B [of "JStr ''SD-B17''" "JNum 17" "''SD-''" "''SD-B17''" "''SD-B99''"]
  by auto



text \<open>
  C6. After the reconciliation of an event whose identifier is admitted, the lock map
  has no entry under that identifier, whether it had one before or not; and when the
  stored path, if any, is an array, the handler returns normally and the stored drone
  has the event's own longitude, latitude and yaw.
\<close>

theorem admitted_event_clears_lock:
  assumes "isAllowed (ev_id e)" and "ToString ts (ev_id e) = Inr k"
  shows "ev_id e = JStr k
     \<and> frozenPos (snd (reconcile ts w now e)) k = None
     \<and> (path_of (store w) k \<noteq> None \<longrightarrow>
          fst (reconcile ts w now e) = None
          \<and> stored_field (store (snd (reconcile ts w now e))) k ''lon'' = Some (ev_lon e)
          \<and> stored_field (store (snd (reconcile ts w now e))) k ''lat'' = Some (ev_lat e)
          \<and> stored_field (store (snd (reconcile ts w now e))) k ''yaw'' = Some (ev_yaw e))"
proof -
  have "frozenPos (snd (reconcile ts w now e)) k = None"
    using assms
    by (cases "addOrUpdateDrone ts (store w) now
                 (droneData_of (ev_id e) (ev_lon e) (ev_lat e) (ev_yaw e) (ev_p e))")
       (simp_all add: reconcile_def call_store_def)
  moreover have "path_of (store w) k \<noteq> None \<longrightarrow>
          fst (reconcile ts w now e) = None
          \<and> stored_field (store (snd (reconcile ts w now e))) k ''lon'' = Some (ev_lon e)
          \<and> stored_field (store (snd (reconcile ts w now e))) k ''lat'' = Some (ev_lat e)
          \<and> stored_field (store (snd (reconcile ts w now e))) k ''yaw'' = Some (ev_yaw e)"
    using assms by (auto simp: reconcile_admitted)
  moreover have "ev_id e = JStr k"
    using assms by (rule isAllowed_ToString)
  ultimately show ?thesis by simp
qed

theorem admitted_event_clears_lock_witness:
  "isAllowed (ev_id (plain_event ''SD-B17'' 35 31 90))
   \<and> ToString ts_throw (ev_id (plain_event ''SD-B17'' 35 31 90)) = Inr ''SD-B17''
   \<and> frozenPos \<lparr>store = initial_store,
                 frozenPos = [''SD-B17'' \<mapsto>
                    \<lparr>lock_lon = JNum 1, lock_lat = JNum 2, lock_yaw = JNum 3\<rparr>]\<rparr> ''SD-B17''
       = Some \<lparr>lock_lon = JNum 1, lock_lat = JNum 2, lock_yaw = JNum 3\<rparr>
   \<and> path_of (store \<lparr>store = initial_store,
                 frozenPos = [''SD-B17'' \<mapsto>
                    \<lparr>lock_lon = JNum 1, lock_lat = JNum 2, lock_yaw = JNum 3\<rparr>]\<rparr>) ''SD-B17'' \<noteq> None
   \<and> frozenPos (snd (reconcile ts_throw
         \<lparr>store = initial_store,
           frozenPos = [''SD-B17'' \<mapsto> \<lparr>lock_lon = JNum 1, lock_lat = JNum 2, lock_yaw = JNum 3\<rparr>]\<rparr>
         1000 (plain_event ''SD-B17'' 35 31 90))) ''SD-B17'' = None
   \<and> fst (reconcile ts_throw
         \<lparr>store = initial_store,
           frozenPos = [''SD-B17'' \<mapsto> \<lparr>lock_lon = JNum 1, lock_lat = JNum 2, lock_yaw = JNum 3\<rparr>]\<rparr>
         1000 (plain_event ''SD-B17'' 35 31 90)) = None
   \<and> stored_field (store (snd (reconcile ts_throw
         \<lparr>store = initial_store,
           frozenPos = [''SD-B17'' \<mapsto> \<lparr>lock_lon = JNum 1, lock_lat = JNum 2, lock_yaw = JNum 3\<rparr>]\<rparr>
         1000 (plain_event ''SD-B17'' 35 31 90)))) ''SD-B17'' ''lon'' = Some (JNum 35)"
  using admitted_event_clears_lock
    [of "plain_event ''SD-B17'' 35 31 90" ts_throw "''SD-B17''"
        "\<lparr>store = initial_store,
          frozenPos = [''SD-B17'' \<mapsto> \<lparr>lock_lon = JNum 1, lock_lat = JNum 2, lock_yaw = JNum 3\<rparr>]\<rparr>"
        1000]
  by (simp add: isAllowed_JStr path_of_def initial_store_def)

text \<open>
  C7. The first reconciliation of an identifier stamps \<open>firstSeen\<close> with the clock
  reading of that call, and no later reconciliation, of this identifier or another,
  restricted or admitted, changes it. The clock reading is taken to be non-zero
  (\<open>Date.now()\<close> counts milliseconds since 1970), since \<open>firstSeen || Date.now()\<close>
  treats a stored zero as not set.
\<close>

theorem firstSeen_is_first_reconciliation:
  assumes "ToString ts (ev_id e) = Inr k" and "drones (store w) k = None" and "now \<noteq> 0"
  shows "stored_field (store (reconcile_all ts w ((now, e) # later))) k ''firstSeen'' = Some (JNum now)"
proof -
  have "stored_field (store (snd (reconcile ts w now e))) k ''firstSeen'' = Some (JNum now)"
    using assms(1,2) by (rule firstSeen_stamped)
  moreover have "truthy (JNum now)"
    using assms(3) by simp
  ultimately show ?thesis
    by (simp add: firstSeen_kept_run)
qed

theorem firstSeen_is_first_reconciliation_witness:
  "ToString ts_throw (ev_id (plain_event ''SD-B17'' 35 31 90)) = Inr ''SD-B17''
   \<and> drones (store initial_world) ''SD-B17'' = None
   \<and> (1000::real) \<noteq> 0
   \<and> stored_field (store (reconcile_all ts_throw initial_world
        [(1000, plain_event ''SD-B17'' 35 31 90), (2000, plain_event ''SD-B17'' 36 32 80)]))
        ''SD-B17'' ''firstSeen'' = Some (JNum 1000)"
  using firstSeen_is_first_reconciliation
    [of ts_throw "plain_event ''SD-B17'' 35 31 90" "''SD-B17''" initial_world 1000
        "[(2000, plain_event ''SD-B17'' 36 32 80)]"]
  by simp

text \<open>
  C8. Reconciling an event leaves the drones stored under every other key and the
  selection cursor as they were; so does a call of \<open>addOrUpdateDrone\<close>, whether it
  returns or throws. \<open>setSelectedDrone\<close> sets the cursor and leaves the drones as
  they were.
\<close>

theorem reconcile_touches_one_drone:
  "(ToString ts (ev_id e) \<noteq> Inr k' \<longrightarrow>
      drones (store (snd (reconcile ts w now e))) k' = drones (store w) k')
   \<and> selectedDroneId (store (snd (reconcile ts w now e))) = selectedDroneId (store w)
   \<and> (ToString ts (objget dd ''id'') \<noteq> Inr k' \<longrightarrow>
        drones (store_after st (addOrUpdateDrone ts st t dd)) k' = drones st k')
   \<and> selectedDroneId (store_after st (addOrUpdateDrone ts st t dd)) = selectedDroneId st
   \<and> drones (setSelectedDrone st v) = drones st
   \<and> selectedDroneId (setSelectedDrone st v) = v"
proof -
  have "ToString ts (ev_id e) \<noteq> Inr k' \<longrightarrow>
      drones (store (snd (reconcile ts w now e))) k' = drones (store w) k'"
    by (simp add: reconcile_frame)
  moreover have "selectedDroneId (store (snd (reconcile ts w now e))) = selectedDroneId (store w)"
    by (rule reconcile_frame)
  moreover have "ToString ts (objget dd ''id'') \<noteq> Inr k' \<longrightarrow>
      drones (store_after st (addOrUpdateDrone ts st t dd)) k' = drones st k'"
    by (simp add: store_after_frame)
  moreover have "selectedDroneId (store_after st (addOrUpdateDrone ts st t dd)) = selectedDroneId st"
    by (rule store_after_frame)
  moreover have "drones (setSelectedDrone st v) = drones st"
    and "selectedDroneId (setSelectedDrone st v) = v"
    by (simp_all add: setSelectedDrone_def)
  ultimately show ?thesis
    by blast
qed

theorem reconcile_touches_one_drone_witness:
  "ToString ts_throw (ev_id (plain_event ''SD-A02'' 10 20 45)) \<noteq> Inr ''SD-B17''
   \<and> drones (store (snd (reconcile ts_throw
         (snd (reconcile ts_throw initial_world 1000 (plain_event ''SD-B17'' 35 31 90)))
         2000 (plain_event ''SD-A02'' 10 20 45)))) ''SD-B17''
      = drones (store (snd (reconcile ts_throw initial_world 1000 (plain_event ''SD-B17'' 35 31 90))))
          ''SD-B17''
   \<and> stored_field (store (snd (reconcile ts_throw
         (snd (reconcile ts_throw initial_world 1000 (plain_event ''SD-B17'' 35 31 90)))
         2000 (plain_event ''SD-A02'' 10 20 45)))) ''SD-B17'' ''lon'' = Some (JNum 35)
   \<and> ToString ts_throw (objget [''id'' \<mapsto> JStr ''SD-A02''] ''id'') \<noteq> Inr ''SD-B17''
   \<and> drones (store_after (setSelectedDrone initial_store (JStr ''SD-B17''))
         (addOrUpdateDrone ts_throw (setSelectedDrone initial_store (JStr ''SD-B17'')) 1000
            [''id'' \<mapsto> JStr ''SD-A02''])) ''SD-B17'' = None
   \<and> selectedDroneId (store_after (setSelectedDrone initial_store (JStr ''SD-B17''))
         (addOrUpdateDrone ts_throw (setSelectedDrone initial_store (JStr ''SD-B17'')) 1000
            [''id'' \<mapsto> JStr ''SD-A02''])) = JStr ''SD-B17''"
proof -
  define w1 where "w1 = snd (reconcile ts_throw initial_world 1000 (plain_event ''SD-B17'' 35 31 90))"
  have lon: "stored_field (store w1) ''SD-B17'' ''lon'' = Some (JNum 35)"
    by (simp add: w1_def run_defs plain_event_def)
  from reconcile_touches_one_drone
    [of ts_throw "plain_event ''SD-A02'' 10 20 45" "''SD-B17''" w1 2000
        "[''id'' \<mapsto> JStr ''SD-A02'']" "setSelectedDrone initial_store (JStr ''SD-B17'')" 1000
        "JStr ''SD-B17''"] lon
  show ?thesis
    unfolding w1_def [symmetric]
    by (simp add: stored_field_def setSelectedDrone_def initial_store_def)
qed

text \<open>
  C9. An accepted message whose properties have no registration, or an empty one (any
  falsy value), gets the identifier \<open>SD-UNK\<close>, which is not admitted. When no lock
  is held for \<open>SD-UNK\<close>, a sequence of such events ends with the lock and the drone
  stored under \<open>SD-UNK\<close> at the longitude, latitude and yaw of the first of them, and
  with every other key of the store as it was.
\<close>

theorem missing_registration_is_SD_UNK:
  "(decode fc = Accepted e \<longrightarrow> \<not> truthy (getprop (getprop (first_feature fc) ''properties'') ''registration'') \<longrightarrow>
       ev_id e = JStr ''SD-UNK'')
   \<and> \<not> isAllowed (JStr ''SD-UNK'')
   \<and> ((\<forall>(t, e') \<in> set ((t0, e0) # rest).
          \<exists>fc'. decode fc' = Accepted e' \<and> \<not> truthy (getprop (getprop (first_feature fc') ''properties'') ''registration''))
        \<longrightarrow> frozenPos w ''SD-UNK'' = None \<longrightarrow> path_of (store w) ''SD-UNK'' \<noteq> None \<longrightarrow>
          frozenPos (reconcile_all ts w ((t0, e0) # rest)) ''SD-UNK'' = Some (lock_of e0)
          \<and> stored_field (store (reconcile_all ts w ((t0, e0) # rest))) ''SD-UNK'' ''lon''
              = Some (ev_lon e0)
          \<and> stored_field (store (reconcile_all ts w ((t0, e0) # rest))) ''SD-UNK'' ''lat''
              = Some (ev_lat e0)
          \<and> stored_field (store (reconcile_all ts w ((t0, e0) # rest))) ''SD-UNK'' ''yaw''
              = Some (ev_yaw e0)
          \<and> (\<forall>k'. k' \<noteq> ''SD-UNK'' \<longrightarrow>
                drones (store (reconcile_all ts w ((t0, e0) # rest))) k' = drones (store w) k'))"
proof -
  let ?k = "''SD-UNK''" and ?i = "JStr ''SD-UNK''"
  have sentinel: "ev_id e = ?i"
    if "decode fc = Accepted e" and "\<not> truthy (getprop (getprop (first_feature fc) ''properties'') ''registration'')" for fc e
    using decode_Accepted_id [OF that(1)] that(2) by simp
  have run: "frozenPos (reconcile_all ts w ((t0, e0) # rest)) ?k = Some (lock_of e0)
          \<and> stored_field (store (reconcile_all ts w ((t0, e0) # rest))) ?k ''lon'' = Some (ev_lon e0)
          \<and> stored_field (store (reconcile_all ts w ((t0, e0) # rest))) ?k ''lat'' = Some (ev_lat e0)
          \<and> stored_field (store (reconcile_all ts w ((t0, e0) # rest))) ?k ''yaw'' = Some (ev_yaw e0)
          \<and> (\<forall>k'. k' \<noteq> ?k \<longrightarrow>
                drones (store (reconcile_all ts w ((t0, e0) # rest))) k' = drones (store w) k')"
    if all: "\<forall>(t, e') \<in> set ((t0, e0) # rest).
          \<exists>fc'. decode fc' = Accepted e' \<and> \<not> truthy (getprop (getprop (first_feature fc') ''properties'') ''registration'')"
      and unlocked: "frozenPos w ?k = None" and path: "path_of (store w) ?k \<noteq> None"
  proof -
    from all sentinel have ids: "\<forall>(t, e') \<in> set ((t0, e0) # rest). ev_id e' = ?i"
      by fastforce
    then have id0: "ev_id e0 = ?i" and ids_rest: "\<forall>(t, e') \<in> set rest. ev_id e' = ?i"
      by simp_all
    from path obtain xs where xs: "path_of (store w) ?k = Some xs" by auto
    have ts: "ToString ts ?i = Inr ?k" by simp
    let ?w1 = "snd (reconcile ts w t0 e0)"
    note first = restricted_first_step [of e0 ts ?k w xs t0]
    have w1: "frozenPos ?w1 ?k = Some (lock_of e0)"
      "path_of (store ?w1) ?k = Some (xs @ [lock_point (lock_of e0)])"
      "stored_field (store ?w1) ?k ''lon'' = Some (lock_lon (lock_of e0))"
      "stored_field (store ?w1) ?k ''lat'' = Some (lock_lat (lock_of e0))"
      "stored_field (store ?w1) ?k ''yaw'' = Some (lock_yaw (lock_of e0))"
      using first id0 unlocked xs by (simp_all add: not_isAllowed_SD_UNK lock_of_def)
    have "frozenPos (reconcile_all ts ?w1 rest) ?k = Some (lock_of e0)"
      using restricted_run [OF not_isAllowed_SD_UNK ts ids_rest w1(1,2)] by simp
    moreover have "stored_field (store (reconcile_all ts ?w1 rest)) ?k ''lon'' = Some (lock_lon (lock_of e0))
       \<and> stored_field (store (reconcile_all ts ?w1 rest)) ?k ''lat'' = Some (lock_lat (lock_of e0))
       \<and> stored_field (store (reconcile_all ts ?w1 rest)) ?k ''yaw'' = Some (lock_yaw (lock_of e0))"
      by (rule restricted_run_fields [OF not_isAllowed_SD_UNK ts ids_rest w1])
    moreover have "drones (store (reconcile_all ts w ((t0, e0) # rest))) k' = drones (store w) k'"
      if "k' \<noteq> ?k" for k'
      using ids that by (intro reconcile_all_frame) auto
    ultimately show ?thesis
      by (simp add: lock_of_def)
  qed
  from sentinel run show ?thesis
    by (simp add: not_isAllowed_SD_UNK)
qed

theorem missing_registration_is_SD_UNK_witness:
  "decode (telemetry (JArr [JNum 10, JNum 20]) (JObj [(''yaw'', JNum 45)]))
     = Accepted \<lparr>ev_id = JStr ''SD-UNK'', ev_lon = JNum 10, ev_lat = JNum 20, ev_yaw = JNum 45,
                 ev_p = JObj [(''yaw'', JNum 45)]\<rparr>
   \<and> decode (telemetry (JArr [JNum 99, JNum 99]) (JObj [(''registration'', JStr [])]))
     = Accepted \<lparr>ev_id = JStr ''SD-UNK'', ev_lon = JNum 99, ev_lat = JNum 99, ev_yaw = JNum 0,
                 ev_p = JObj [(''registration'', JStr [])]\<rparr>
   \<and> frozenPos initial_world ''SD-UNK'' = None
   \<and> path_of (store initial_world) ''SD-UNK'' \<noteq> None
   \<and> stored_field (store (reconcile_all ts_throw initial_world
        [(1000, \<lparr>ev_id = JStr ''SD-UNK'', ev_lon = JNum 10, ev_lat = JNum 20, ev_yaw = JNum 45,
                 ev_p = JObj [(''yaw'', JNum 45)]\<rparr>),
         (2000, \<lparr>ev_id = JStr ''SD-UNK'', ev_lon = JNum 99, ev_lat = JNum 99, ev_yaw = JNum 0,
                 ev_p = JObj [(''registration'', JStr [])]\<rparr>)])) ''SD-UNK'' ''lon'' = Some (JNum 10)
   \<and> stored_field (store (reconcile_all ts_throw initial_world
        [(1000, \<lparr>ev_id = JStr ''SD-UNK'', ev_lon = JNum 10, ev_lat = JNum 20, ev_yaw = JNum 45,
                 ev_p = JObj [(''yaw'', JNum 45)]\<rparr>),
         (2000, \<lparr>ev_id = JStr ''SD-UNK'', ev_lon = JNum 99, ev_lat = JNum 99, ev_yaw = JNum 0,
                 ev_p = JObj [(''registration'', JStr [])]\<rparr>)])) ''SD-UNK'' ''yaw'' = Some (JNum 45)"
proof -
  let ?e1 = "\<lparr>ev_id = JStr ''SD-UNK'', ev_lon = JNum 10, ev_lat = JNum 20, ev_yaw = JNum 45,
                 ev_p = JObj [(''yaw'', JNum 45)]\<rparr>"
  let ?e2 = "\<lparr>ev_id = JStr ''SD-UNK'', ev_lon = JNum 99, ev_lat = JNum 99, ev_yaw = JNum 0,
                 ev_p = JObj [(''registration'', JStr [])]\<rparr>"
  have d1: "decode (telemetry (JArr [JNum 10, JNum 20]) (JObj [(''yaw'', JNum 45)])) = Accepted ?e1"
    and d2: "decode (telemetry (JArr [JNum 99, JNum 99]) (JObj [(''registration'', JStr [])]))
               = Accepted ?e2"
    by (simp_all add: decode_def telemetry_def first_feature_def geometry_type_def
        nth_or_undefined_def Let_def)
  have r1: "\<not> truthy (getprop (getprop (first_feature
              (telemetry (JArr [JNum 10, JNum 20]) (JObj [(''yaw'', JNum 45)]))) ''properties'')
            ''registration'')"
    and r2: "\<not> truthy (getprop (getprop (first_feature
              (telemetry (JArr [JNum 99, JNum 99]) (JObj [(''registration'', JStr [])])))
            ''properties'') ''registration'')"
    by (simp_all add: telemetry_def first_feature_def)
  have "\<exists>fc'. decode fc' = Accepted ?e1
          \<and> \<not> truthy (getprop (getprop (first_feature fc') ''properties'') ''registration'')"
    using d1 r1 by blast
  moreover have "\<exists>fc'. decode fc' = Accepted ?e2
          \<and> \<not> truthy (getprop (getprop (first_feature fc') ''properties'') ''registration'')"
    using d2 r2 by blast
  ultimately have "\<forall>(t, e') \<in> set [(1000, ?e1), (2000, ?e2)].
          \<exists>fc'. decode fc' = Accepted e'
            \<and> \<not> truthy (getprop (getprop (first_feature fc') ''properties'') ''registration'')"
    by simp
  with missing_registration_is_SD_UNK
    [of "telemetry (JArr [JNum 10, JNum 20]) (JObj [(''yaw'', JNum 45)])" ?e1
        1000 ?e1 "[(2000, ?e2)]" initial_world ts_throw] d1 d2 r1
  show ?thesis
    by simp
qed



end
